theory Spec2Isabelle
  imports Main "HOL-Library.Word"
begin

unbundle bit_operations_syntax

section \<open>Strings, digests and JSON values\<close>

text \<open>
  A JavaScript string is modelled by the list of its UTF-8 bytes, which is what
  \<^verbatim>\<open>Buffer.from(s)\<close> yields; every literal of the program is ASCII.  A point in
  time (\<^verbatim>\<open>Date\<close>) is its number of milliseconds since the epoch.
\<close>

type_synonym time = int

definition startsWith :: "string \<Rightarrow> string \<Rightarrow> bool" where
  "startsWith s p = (take (length p) s = p)"

definition endsWith :: "string \<Rightarrow> string \<Rightarrow> bool" where
  "endsWith s p = (length p \<le> length s \<and> drop (length s - length p) s = p)"

text \<open>\<^verbatim>\<open>s.slice(0, -k)\<close>: the string without its last \<open>k\<close> characters.\<close>

definition sliceEnd :: "string \<Rightarrow> nat \<Rightarrow> string" where
  "sliceEnd s k = take (length s - k) s"

text \<open>\<^verbatim>\<open>s.substring(0, n)\<close> and \<^verbatim>\<open>s.substring(n)\<close>.\<close>

definition substring0 :: "string \<Rightarrow> nat \<Rightarrow> string" where
  "substring0 s n = take n s"

definition substringFrom :: "string \<Rightarrow> nat \<Rightarrow> string" where
  "substringFrom s n = drop n s"

text \<open>
  SHA-256 and HMAC-SHA256 are parameters of the model: functions into 256-bit words.
  \<^verbatim>\<open>digest('hex')\<close> writes such a word as 64 lower-case hexadecimal digits.
\<close>

definition hexDigit :: "nat \<Rightarrow> char" where
  "hexDigit n = ''0123456789abcdef'' ! (n mod 16)"

definition hex :: "256 word \<Rightarrow> string" where
  "hex w = map (\<lambda>i. hexDigit (unat (drop_bit (4 * (63 - i)) w AND 15))) [0..<64]"

text \<open>Decimal rendering of a number, as \<^verbatim>\<open>toString()\<close> and template strings do.\<close>

fun natToString :: "nat \<Rightarrow> string" where
  "natToString n =
     (if n < 10 then [hexDigit n] else natToString (n div 10) @ [hexDigit (n mod 10)])"

definition intToString :: "int \<Rightarrow> string" where
  "intToString i = (if i < 0 then CHR ''-'' # natToString (nat (- i)) else natToString (nat i))"

datatype json =
    JNull
  | JBool bool
  | JNum int
  | JStr string
  | JArr "json list"
  | JObj "(string \<times> json) list"

section \<open>API keys: scopes\<close>

record scoped =
  scopes :: "string list"

text \<open>
  \<^verbatim>\<open>hasScope(apiKey: { scopes: string[] }, requiredScope)\<close>: the universal wildcard,
  an exact entry, or an entry ending in \<^verbatim>\<open>.*\<close> whose text before these two
  characters is a prefix of the required scope.
\<close>

definition hasScope :: "'a scoped_scheme \<Rightarrow> string \<Rightarrow> bool" where
  "hasScope apiKey requiredScope =
     (''*'' \<in> set (scopes apiKey) \<or>
      requiredScope \<in> set (scopes apiKey) \<or>
      list_ex (\<lambda>scope.
         if endsWith scope ''.*''
         then (let prefix = sliceEnd scope 2 in startsWith requiredScope prefix)
         else False) (scopes apiKey))"

section \<open>Webhook signatures\<close>

text \<open>
  \<^verbatim>\<open>generateSignature(payload, secret)\<close> is the hexadecimal HMAC-SHA256 of the payload
  under the secret.
\<close>

definition generateSignature :: "(string \<Rightarrow> string \<Rightarrow> 256 word) \<Rightarrow> string \<Rightarrow> string \<Rightarrow> string" where
  "generateSignature hmac payload secret = hex (hmac secret payload)"

text \<open>
  \<^verbatim>\<open>crypto.timingSafeEqual(a, b)\<close> throws a \<^verbatim>\<open>RangeError\<close> when the two buffers
  differ in byte length, and otherwise tells whether they are equal.
\<close>

datatype error =
    RangeError
  | UniqueConstraintViolation
  | RecordNotFound
  | NotFoundError string

definition timingSafeEqual :: "string \<Rightarrow> string \<Rightarrow> error + bool" where
  "timingSafeEqual a b = (if length a \<noteq> length b then Inl RangeError else Inr (a = b))"

definition verifyWebhookSignature ::
  "(string \<Rightarrow> string \<Rightarrow> 256 word) \<Rightarrow> string \<Rightarrow> string \<Rightarrow> string \<Rightarrow> error + bool" where
  "verifyWebhookSignature hmac payload signature secret =
     (let expectedSignature = generateSignature hmac payload secret
      in timingSafeEqual signature expectedSignature)"

section \<open>The store\<close>

text \<open>
  The database tables the two components use, as lists of rows in insertion order.
  Columns that no modelled operation reads (the generated ids of audit-log and delivery
  rows, the creation dates of webhook and delivery rows) are left out.  The runtime's
  functions that the program calls but does not define are fields of \<open>platform\<close>,
  together with the rate limit that the schema gives a new key.  Every operation takes
  the reading of the clock as its argument \<open>now\<close>.
\<close>

record platform =
  sha256 :: "string \<Rightarrow> 256 word"
  hmacSha256 :: "string \<Rightarrow> string \<Rightarrow> 256 word"
  stringify :: "json \<Rightarrow> string"
  toISOString :: "time \<Rightarrow> string"
  defaultRateLimit :: int

record apiKey = scoped +
  ak_id :: string
  ak_organizationId :: string
  ak_name :: string
  ak_key :: string
  ak_keyPrefix :: string
  ak_expiresAt :: "time option"
  ak_createdBy :: string
  ak_isActive :: bool
  ak_lastUsedAt :: "time option"
  ak_usageCount :: int
  ak_rateLimit :: int
  ak_createdAt :: time

record auditLog =
  al_organizationId :: string
  al_userId :: string
  al_userEmail :: "string option"
  al_ipAddress :: string
  al_userAgent :: "string option"
  al_action :: string
  al_entityType :: string
  al_entityId :: "string option"
  al_description :: "string option"
  al_oldValue :: "json option"
  al_newValue :: "json option"
  al_metadata :: json
  al_createdAt :: time

record webhook =
  wh_id :: string
  wh_organizationId :: string
  wh_url :: string
  wh_events :: "string list"
  wh_secret :: string
  wh_isActive :: bool
  wh_failureCount :: int
  wh_lastDeliveryAt :: "time option"

record webhookDelivery =
  wd_webhookId :: string
  wd_event :: string
  wd_payload :: json
  wd_statusCode :: "int option"
  wd_response :: "string option"
  wd_duration :: int
  wd_success :: bool
  wd_error :: "string option"

record db =
  apiKeys :: "apiKey list"
  auditLogs :: "auditLog list"
  webhooks :: "webhook list"
  webhookDeliveries :: "webhookDelivery list"

definition emptyDb :: db where
  "emptyDb = \<lparr>apiKeys = [], auditLogs = [], webhooks = [], webhookDeliveries = []\<rparr>"

text \<open>
  \<^verbatim>\<open>create\<close> fails when the primary key or a unique column (the key hash, which
  \<^verbatim>\<open>findUnique({ where: { key } })\<close> relies on) is already taken; \<^verbatim>\<open>update\<close>
  fails when no row matches.
\<close>

definition apiKey_create :: "apiKey \<Rightarrow> db \<Rightarrow> error + db" where
  "apiKey_create row d =
     (if list_ex (\<lambda>k. ak_id k = ak_id row \<or> ak_key k = ak_key row) (apiKeys d)
      then Inl UniqueConstraintViolation
      else Inr (d\<lparr>apiKeys := apiKeys d @ [row]\<rparr>))"

definition apiKey_findUniqueByKey :: "string \<Rightarrow> db \<Rightarrow> apiKey option" where
  "apiKey_findUniqueByKey hash d = find (\<lambda>k. ak_key k = hash) (apiKeys d)"

definition apiKey_update :: "(apiKey \<Rightarrow> bool) \<Rightarrow> (apiKey \<Rightarrow> apiKey) \<Rightarrow> db \<Rightarrow> error + db" where
  "apiKey_update wh f d =
     (if list_ex wh (apiKeys d)
      then Inr (d\<lparr>apiKeys := map (\<lambda>k. if wh k then f k else k) (apiKeys d)\<rparr>)
      else Inl RecordNotFound)"

definition webhook_findUnique :: "string \<Rightarrow> db \<Rightarrow> webhook option" where
  "webhook_findUnique i d = find (\<lambda>w. wh_id w = i) (webhooks d)"


definition webhook_update :: "string \<Rightarrow> (webhook \<Rightarrow> webhook) \<Rightarrow> db \<Rightarrow> error + db" where
  "webhook_update i f d =
     (if list_ex (\<lambda>w. wh_id w = i) (webhooks d)
      then Inr (d\<lparr>webhooks := map (\<lambda>w. if wh_id w = i then f w else w) (webhooks d)\<rparr>)
      else Inl RecordNotFound)"

definition webhookDelivery_create :: "webhookDelivery \<Rightarrow> db \<Rightarrow> db" where
  "webhookDelivery_create row d = d\<lparr>webhookDeliveries := webhookDeliveries d @ [row]\<rparr>"

section \<open>Audit log\<close>

record auditLogParams =
  p_organizationId :: string
  p_userId :: string
  p_userEmail :: "string option"
  p_action :: string
  p_entityType :: string
  p_entityId :: "string option"
  p_description :: "string option"
  p_oldValue :: "json option"
  p_newValue :: "json option"
  p_metadata :: "json option"

text \<open>\<^verbatim>\<open>a || b\<close> on header values: an absent or empty string is falsy.\<close>

definition truthy :: "string option \<Rightarrow> string option" where
  "truthy v = (case v of None \<Rightarrow> None | Some s \<Rightarrow> if s = [] then None else Some s)"

text \<open>
  \<^verbatim>\<open>createAuditLog(params)\<close> inserts one row; the request headers
  (\<^verbatim>\<open>headers()\<close>) and the insertion time are inputs.
\<close>

definition createAuditLog :: "(string \<rightharpoonup> string) \<Rightarrow> time \<Rightarrow> auditLogParams \<Rightarrow> db \<Rightarrow> db" where
  "createAuditLog headersList now params d =
     (let ipAddress =
            (case truthy (headersList ''x-forwarded-for'') of
               Some a \<Rightarrow> a
             | None \<Rightarrow> (case truthy (headersList ''x-real-ip'') of
                          Some a \<Rightarrow> a
                        | None \<Rightarrow> ''unknown''));
          userAgent = truthy (headersList ''user-agent'')
      in d\<lparr>auditLogs := auditLogs d @
           [\<lparr>al_organizationId = p_organizationId params,
             al_userId = p_userId params,
             al_userEmail = p_userEmail params,
             al_ipAddress = ipAddress,
             al_userAgent = userAgent,
             al_action = p_action params,
             al_entityType = p_entityType params,
             al_entityId = p_entityId params,
             al_description = p_description params,
             al_oldValue = p_oldValue params,
             al_newValue = p_newValue params,
             al_metadata = (case p_metadata params of None \<Rightarrow> JObj [] | Some m \<Rightarrow> m),
             al_createdAt = now\<rparr>]\<rparr>)"

section \<open>Credential gateway\<close>

definition API_KEY_PREFIX :: string where
  "API_KEY_PREFIX = ''ip_''"

text \<open>
  \<^verbatim>\<open>generateApiKey()\<close>: the argument \<open>random\<close> is the base64url text of the 32
  random bytes; the result is the key, its hash and its display prefix.
\<close>

definition generateApiKey :: "platform \<Rightarrow> string \<Rightarrow> string \<times> string \<times> string" where
  "generateApiKey p random =
     (let key = API_KEY_PREFIX @ random;
          hash = hex (sha256 p key);
          prefix = substring0 key 12
      in (key, hash, prefix))"

text \<open>
  Modelled from the spec: the database schema, which fixes the columns that
  \<^verbatim>\<open>db.apiKey.create\<close> fills by default, is not among the sources.  Following the
  spec's data model a credential is created active, never used, with usage counter 0;
  its rate-limit ceiling is the platform's \<open>defaultRateLimit\<close>, and its id and creation
  time are supplied by the database (the arguments \<open>newId\<close> and \<open>now\<close>).
\<close>

definition newApiKeyRow ::
  "platform \<Rightarrow> string \<Rightarrow> time \<Rightarrow> string \<Rightarrow> string \<Rightarrow> string \<Rightarrow> string \<Rightarrow> string list \<Rightarrow>
   time option \<Rightarrow> string \<Rightarrow> apiKey" where
  "newApiKeyRow p newId now organizationId name hash prefix scopeList expiresAt createdBy =
     \<lparr>scopes = scopeList,
      ak_id = newId,
      ak_organizationId = organizationId,
      ak_name = name,
      ak_key = hash,
      ak_keyPrefix = prefix,
      ak_expiresAt = expiresAt,
      ak_createdBy = createdBy,
      ak_isActive = True,
      ak_lastUsedAt = None,
      ak_usageCount = 0,
      ak_rateLimit = defaultRateLimit p,
      ak_createdAt = now\<rparr>"

text \<open>
  \<^verbatim>\<open>createApiKey(organizationId, name, scopes, createdBy, expiresAt?)\<close> stores the
  hash, writes an \<^verbatim>\<open>api_key.created\<close> audit entry and returns the stored row with
  the unhashed key in place of the hash.
\<close>

definition quoted :: "string \<Rightarrow> string" where
  "quoted s = [CHR 0x22] @ s @ [CHR 0x22]"

definition createApiKey ::
  "platform \<Rightarrow> string \<Rightarrow> string \<Rightarrow> (string \<rightharpoonup> string) \<Rightarrow> time \<Rightarrow>
   string \<Rightarrow> string \<Rightarrow> string list \<Rightarrow> string \<Rightarrow> time option \<Rightarrow> db \<Rightarrow> error + (apiKey \<times> db)" where
  "createApiKey p random newId headersList now organizationId name scopeList createdBy expiresAt d =
     (case generateApiKey p random of (key, hash, prefix) \<Rightarrow>
        (let apiKey = newApiKeyRow p newId now organizationId name hash prefix scopeList
                        expiresAt createdBy
         in case apiKey_create apiKey d of
              Inl e \<Rightarrow> Inl e
            | Inr d1 \<Rightarrow>
                (let d2 = createAuditLog headersList now
                       \<lparr>p_organizationId = organizationId,
                        p_userId = createdBy,
                        p_userEmail = None,
                        p_action = ''api_key.created'',
                        p_entityType = ''api_key'',
                        p_entityId = Some (ak_id apiKey),
                        p_description = Some (''API key '' @ quoted name @ '' created''),
                        p_oldValue = None,
                        p_newValue = Some (JObj
                          ([(''name'', JStr name), (''scopes'', JArr (map JStr scopeList))] @
                           (case expiresAt of
                              None \<Rightarrow> []
                            | Some e \<Rightarrow> [(''expiresAt'', JStr (toISOString p e))]))),
                        p_metadata = None\<rparr> d1
                 in Inr (apiKey\<lparr>ak_key := key\<rparr>, d2))))"

text \<open>
  \<^verbatim>\<open>validateApiKey(key)\<close>: \<open>None\<close> is the \<^verbatim>\<open>null\<close> the program returns for a
  key that is not accepted.  The organization joined to the row is represented by its
  id.
\<close>

record validated =
  v_apiKey :: apiKey
  v_organization :: string

definition validateApiKey ::
  "platform \<Rightarrow> time \<Rightarrow> string \<Rightarrow> db \<Rightarrow> error + (validated option \<times> db)" where
  "validateApiKey p now key d =
     (if \<not> startsWith key API_KEY_PREFIX then Inr (None, d)
      else
        (let hash = hex (sha256 p key)
         in case apiKey_findUniqueByKey hash d of
              None \<Rightarrow> Inr (None, d)
            | Some apiKey \<Rightarrow>
                if \<not> ak_isActive apiKey then Inr (None, d)
                else if (case ak_expiresAt apiKey of None \<Rightarrow> False | Some e \<Rightarrow> e < now)
                then Inr (None, d)
                else
                  (case apiKey_update (\<lambda>k. ak_id k = ak_id apiKey)
                          (\<lambda>k. k\<lparr>ak_lastUsedAt := Some now,
                                 ak_usageCount := ak_usageCount k + 1\<rparr>) d of
                     Inl e \<Rightarrow> Inl e
                   | Inr d1 \<Rightarrow>
                       Inr (Some \<lparr>v_apiKey = apiKey,
                                  v_organization = ak_organizationId apiKey\<rparr>, d1))))"

text \<open>\<^verbatim>\<open>checkRateLimit(apiKeyId, rateLimit)\<close> at the clock reading \<open>now\<close>.\<close>

record rateLimitResult =
  allowed :: bool
  remaining :: int
  resetAt :: time

definition recentUsage :: "time \<Rightarrow> string \<Rightarrow> db \<Rightarrow> int" where
  "recentUsage windowStart apiKeyId d =
     int (length (filter (\<lambda>l. al_action l = ''api_key.used'' \<and>
                              al_entityId l = Some apiKeyId \<and>
                              windowStart \<le> al_createdAt l) (auditLogs d)))"

definition checkRateLimit :: "time \<Rightarrow> string \<Rightarrow> int \<Rightarrow> db \<Rightarrow> rateLimitResult" where
  "checkRateLimit now apiKeyId rateLimit d =
     (let windowStart = now - 60 * 60 * 1000;
          used = recentUsage windowStart apiKeyId d;
          remaining = max 0 (rateLimit - used);
          resetAt = windowStart + 60 * 60 * 1000
      in \<lparr>allowed = remaining > 0, remaining = remaining, resetAt = resetAt\<rparr>)"

text \<open>
  \<^verbatim>\<open>revokeApiKey(apiKeyId, organizationId, revokedBy)\<close>; the update throws when no
  row has this id and organization.
\<close>

definition revokeApiKey ::
  "(string \<rightharpoonup> string) \<Rightarrow> time \<Rightarrow> string \<Rightarrow> string \<Rightarrow> string \<Rightarrow> db \<Rightarrow> error + (apiKey \<times> db)" where
  "revokeApiKey headersList now apiKeyId organizationId revokedBy d =
     (case find (\<lambda>k. ak_id k = apiKeyId \<and> ak_organizationId k = organizationId) (apiKeys d) of
        None \<Rightarrow> Inl RecordNotFound
      | Some k \<Rightarrow>
          (case apiKey_update (\<lambda>k. ak_id k = apiKeyId \<and> ak_organizationId k = organizationId)
                  (\<lambda>k. k\<lparr>ak_isActive := False\<rparr>) d of
             Inl e \<Rightarrow> Inl e
           | Inr d1 \<Rightarrow>
               (let apiKey = k\<lparr>ak_isActive := False\<rparr>;
                    d2 = createAuditLog headersList now
                       \<lparr>p_organizationId = organizationId,
                        p_userId = revokedBy,
                        p_userEmail = None,
                        p_action = ''api_key.deleted'',
                        p_entityType = ''api_key'',
                        p_entityId = Some apiKeyId,
                        p_description = Some (''API key '' @ quoted (ak_name apiKey) @ '' revoked''),
                        p_oldValue = None,
                        p_newValue = None,
                        p_metadata = None\<rparr> d1
                in Inr (apiKey, d2))))"

text \<open>
  \<^verbatim>\<open>authenticateApiRequest()\<close>: the request headers are an input; the result is
  either an error with its HTTP status and headers, or the key, its organization and
  the rate-limit headers.
\<close>

datatype authResult =
    AuthError string int "(string \<times> string) list"
  | AuthOk apiKey string "(string \<times> string) list"

definition authenticateApiRequest ::
  "platform \<Rightarrow> time \<Rightarrow> (string \<rightharpoonup> string) \<Rightarrow> db \<Rightarrow> error + (authResult \<times> db)" where
  "authenticateApiRequest p now headersList d =
     (case headersList ''authorization'' of
        None \<Rightarrow> Inr (AuthError ''Missing or invalid authorization header'' 401 [], d)
      | Some authHeader \<Rightarrow>
          if \<not> startsWith authHeader ''Bearer ''
          then Inr (AuthError ''Missing or invalid authorization header'' 401 [], d)
          else
            (let key = substringFrom authHeader 7
             in case validateApiKey p now key d of
                  Inl e \<Rightarrow> Inl e
                | Inr (None, d1) \<Rightarrow> Inr (AuthError ''Invalid API key'' 401 [], d1)
                | Inr (Some result, d1) \<Rightarrow>
                    (let apiKey = v_apiKey result;
                         organization = v_organization result;
                         rateLimit = checkRateLimit now (ak_id apiKey) (ak_rateLimit apiKey) d1
                     in if \<not> allowed rateLimit
                        then Inr (AuthError ''Rate limit exceeded'' 429
                               [(''X-RateLimit-Limit'', intToString (ak_rateLimit apiKey)),
                                (''X-RateLimit-Remaining'', intToString (remaining rateLimit)),
                                (''X-RateLimit-Reset'', toISOString p (resetAt rateLimit))], d1)
                        else Inr (AuthOk apiKey organization
                               [(''X-RateLimit-Limit'', intToString (ak_rateLimit apiKey)),
                                (''X-RateLimit-Remaining'', intToString (remaining rateLimit))],
                               d1))))"

section \<open>Event dispatcher\<close>

text \<open>
  The network is an input: for the webhook with a given id and the request sent to it,
  \<open>net\<close> tells how \<^verbatim>\<open>fetch\<close> ended and what the clock read before the request,
  after it, and at the update of the webhook row.  \<open>Responded status body\<close> is a
  response (\<open>body = None\<close> when reading its text failed); \<open>Threw m\<close> is a rejected
  \<^verbatim>\<open>fetch\<close>, a timeout included, with the message of the thrown \<^verbatim>\<open>Error\<close> if
  it was one.
\<close>

datatype fetchResult =
    Responded int "string option"
  | Threw "string option"

record httpRequest =
  rq_url :: string
  rq_method :: string
  rq_headers :: "(string \<times> string) list"
  rq_body :: string
  rq_timeout :: int

record attempt =
  at_result :: fetchResult
  at_startTime :: time
  at_endTime :: time
  at_updatedAt :: time

type_synonym network = "string \<Rightarrow> httpRequest \<Rightarrow> attempt"

record outcome =
  o_webhookId :: string
  o_success :: bool
  o_error :: "string option"

text \<open>\<^verbatim>\<open>response.ok\<close>: the status is in the range 200 to 299.\<close>

definition responseOk :: "int \<Rightarrow> bool" where
  "responseOk status = (200 \<le> status \<and> status \<le> 299)"

definition webhookPayload :: "platform \<Rightarrow> time \<Rightarrow> string \<Rightarrow> string \<Rightarrow> json \<Rightarrow> json" where
  "webhookPayload p now organizationId event data =
     JObj [(''event'', JStr event),
           (''timestamp'', JStr (toISOString p now)),
           (''data'', data),
           (''organizationId'', JStr organizationId)]"

definition deliveryRequest ::
  "platform \<Rightarrow> time \<Rightarrow> string \<Rightarrow> string \<Rightarrow> webhook \<Rightarrow> httpRequest" where
  "deliveryRequest p now event payloadString webhook =
     (let signature = generateSignature (hmacSha256 p) payloadString (wh_secret webhook)
      in \<lparr>rq_url = wh_url webhook,
          rq_method = ''POST'',
          rq_headers = [(''Content-Type'', ''application/json''),
                        (''X-Webhook-Signature'', signature),
                        (''X-Webhook-Event'', event),
                        (''X-Webhook-Timestamp'', toISOString p now)],
          rq_body = payloadString,
          rq_timeout = 30000\<rparr>)"

text \<open>
  The \<^verbatim>\<open>try\<close> block of one delivery: success flag, status code, response body and
  error text.
\<close>

definition classify :: "fetchResult \<Rightarrow> bool \<times> int option \<times> string option \<times> string option" where
  "classify r =
     (case r of
        Responded statusCode responseBody \<Rightarrow>
          (let success = responseOk statusCode
           in (success, Some statusCode, responseBody,
               if \<not> success
               then Some (''HTTP '' @ intToString statusCode @ '': '' @
                          (case responseBody of
                             None \<Rightarrow> ''undefined''
                           | Some b \<Rightarrow> substring0 b 500))
               else None))
      | Threw m \<Rightarrow>
          (False, None, None,
           Some (case m of Some message \<Rightarrow> message | None \<Rightarrow> ''Unknown error'')))"

text \<open>The row that \<^verbatim>\<open>db.webhookDelivery.create\<close> is given, and the three database steps
  that follow the request.\<close>

definition deliveryRow :: "string \<Rightarrow> string \<Rightarrow> json \<Rightarrow> attempt \<Rightarrow> webhookDelivery" where
  "deliveryRow webhookId event payload a =
     (case classify (at_result a) of (success, statusCode, responseBody, err) \<Rightarrow>
        \<lparr>wd_webhookId = webhookId,
         wd_event = event,
         wd_payload = payload,
         wd_statusCode = statusCode,
         wd_response = map_option (\<lambda>b. substring0 b 10000) responseBody,
         wd_duration = at_endTime a - at_startTime a,
         wd_success = success,
         wd_error = err\<rparr>)"

definition recordDelivery ::
  "string \<Rightarrow> string \<Rightarrow> json \<Rightarrow> attempt \<Rightarrow> db \<Rightarrow> db" where
  "recordDelivery webhookId event payload a d =
     webhookDelivery_create (deliveryRow webhookId event payload a) d"

definition updateStats :: "string \<Rightarrow> bool \<Rightarrow> time \<Rightarrow> db \<Rightarrow> error + db" where
  "updateStats webhookId success t d =
     webhook_update webhookId
       (\<lambda>w. w\<lparr>wh_lastDeliveryAt := Some t,
              wh_failureCount := (if success then 0 else wh_failureCount w + 1)\<rparr>) d"

definition disableAfterFailures :: "string \<Rightarrow> db \<Rightarrow> error + db" where
  "disableAfterFailures webhookId d =
     (case webhook_findUnique webhookId d of
        None \<Rightarrow> Inr d
      | Some webhook_updated \<Rightarrow>
          if wh_failureCount webhook_updated \<ge> 10
          then webhook_update webhookId (\<lambda>w. w\<lparr>wh_isActive := False\<rparr>) d
          else Inr d)"

text \<open>One element of \<^verbatim>\<open>deliveryPromises\<close>: the delivery to one webhook.\<close>

definition sendRequest ::
  "platform \<Rightarrow> network \<Rightarrow> time \<Rightarrow> string \<Rightarrow> json \<Rightarrow> webhook \<Rightarrow> attempt" where
  "sendRequest p net now event payload webhook =
     net (wh_id webhook) (deliveryRequest p now event (stringify p payload) webhook)"

definition deliver ::
  "platform \<Rightarrow> network \<Rightarrow> time \<Rightarrow> string \<Rightarrow> json \<Rightarrow> webhook \<Rightarrow> db \<Rightarrow> error + (outcome \<times> db)" where
  "deliver p net now event payload webhook d =
     (let a = sendRequest p net now event payload webhook
      in case classify (at_result a) of (success, statusCode, responseBody, err) \<Rightarrow>
           (let d1 = recordDelivery (wh_id webhook) event payload a d
            in case updateStats (wh_id webhook) success (at_updatedAt a) d1 of
                 Inl e \<Rightarrow> Inl e
               | Inr d2 \<Rightarrow>
                   (case (if \<not> success then disableAfterFailures (wh_id webhook) d2 else Inr d2) of
                      Inl e \<Rightarrow> Inl e
                    | Inr d3 \<Rightarrow>
                        Inr (\<lparr>o_webhookId = wh_id webhook, o_success = success, o_error = err\<rparr>,
                             d3))))"

text \<open>
  \<^verbatim>\<open>Promise.all(webhooks.map(...))\<close>.  The deliveries run concurrently in the
  program; each one touches only its own webhook row and appends one delivery row, and
  the model runs them in the order of the list.
\<close>

fun deliverAll ::
  "platform \<Rightarrow> network \<Rightarrow> time \<Rightarrow> string \<Rightarrow> json \<Rightarrow> webhook list \<Rightarrow> db \<Rightarrow>
   error + (outcome list \<times> db)" where
  "deliverAll p net now event payload [] d = Inr ([], d)"
| "deliverAll p net now event payload (w # ws) d =
     (case deliver p net now event payload w d of
        Inl e \<Rightarrow> Inl e
      | Inr (out, d1) \<Rightarrow>
          (case deliverAll p net now event payload ws d1 of
             Inl e \<Rightarrow> Inl e
           | Inr (outs, d2) \<Rightarrow> Inr (out # outs, d2)))"

text \<open>
  \<^verbatim>\<open>triggerWebhooks(organizationId, event, data)\<close>.  The result \<open>None\<close> is the
  \<^verbatim>\<open>undefined\<close> of the bare \<^verbatim>\<open>return\<close> taken when no webhook matches.
\<close>

definition matching :: "string \<Rightarrow> string \<Rightarrow> db \<Rightarrow> webhook list" where
  "matching organizationId event d =
     filter (\<lambda>w. wh_organizationId w = organizationId \<and> wh_isActive w \<and>
                 event \<in> set (wh_events w)) (webhooks d)"

definition triggerWebhooks ::
  "platform \<Rightarrow> network \<Rightarrow> time \<Rightarrow> string \<Rightarrow> string \<Rightarrow> json \<Rightarrow> db \<Rightarrow>
   error + (outcome list option \<times> db)" where
  "triggerWebhooks p net now organizationId event data d =
     (let found = matching organizationId event d
      in if length found = 0 then Inr (None, d)
         else
           (let payload = webhookPayload p now organizationId event data
            in case deliverAll p net now event payload found d of
                 Inl e \<Rightarrow> Inl e
               | Inr (outs, d1) \<Rightarrow> Inr (Some outs, d1)))"





text \<open>
  The operations of the credential gateway as steps on the store, and the stores they
  reach from a given one.
\<close>

inductive gatewayStep :: "db \<Rightarrow> db \<Rightarrow> bool" where
  validate: "validateApiKey p now key d = Inr (res, d') \<Longrightarrow> gatewayStep d d'"
| authenticate: "authenticateApiRequest p now headersList d = Inr (ares, d') \<Longrightarrow> gatewayStep d d'"
| issue: "createApiKey p random newId headersList now organizationId name scopeList createdBy
            expiresAt d = Inr (row, d') \<Longrightarrow> gatewayStep d d'"
| revoke: "revokeApiKey headersList now apiKeyId organizationId revokedBy d = Inr (row, d') \<Longrightarrow>
           gatewayStep d d'"

inductive reachableFrom :: "db \<Rightarrow> db \<Rightarrow> bool" where
  start: "reachableFrom d0 d0"
| step: "reachableFrom d0 d \<Longrightarrow> gatewayStep d d' \<Longrightarrow> reachableFrom d0 d'"

text \<open>The audit-log entries that \<open>checkRateLimit\<close> can count: those with action \<^verbatim>\<open>api_key.used\<close>.\<close>

definition usedEntries :: "auditLog list \<Rightarrow> auditLog list" where
  "usedEntries ls = filter (\<lambda>l. al_action l = ''api_key.used'') ls"

section \<open>Example data\<close>

text \<open>
  A platform whose digests are constant, and an audit-log entry of the kind that
  \<open>checkRateLimit\<close> counts, for evaluating the operations on concrete stores.
\<close>

definition examplePlatform :: platform where
  "examplePlatform =
     \<lparr>sha256 = (\<lambda>_. 0), hmacSha256 = (\<lambda>_ _. 0), stringify = (\<lambda>_. ''{}''),
      toISOString = (\<lambda>_. ''1970-01-01T00:00:00.000Z''), defaultRateLimit = 1000\<rparr>"


definition exampleApiKey :: "string \<Rightarrow> bool \<Rightarrow> time option \<Rightarrow> apiKey" where
  "exampleApiKey i active expiry =
     \<lparr>scopes = [''cases.read''], ak_id = i, ak_organizationId = ''org1'', ak_name = ''ci'',
      ak_key = hex 0, ak_keyPrefix = ''ip_'', ak_expiresAt = expiry, ak_createdBy = ''user1'',
      ak_isActive = active, ak_lastUsedAt = None, ak_usageCount = 7, ak_rateLimit = 1000,
      ak_createdAt = 0\<rparr>"

definition exampleWebhook :: "string \<Rightarrow> bool \<Rightarrow> int \<Rightarrow> webhook" where
  "exampleWebhook i active failures =
     \<lparr>wh_id = i, wh_organizationId = ''org1'', wh_url = ''https://example.test/hook'',
      wh_events = [''case.created''], wh_secret = ''s'', wh_isActive = active,
      wh_failureCount = failures, wh_lastDeliveryAt = None\<rparr>"

text \<open>
  A network on which the subscriber \<^verbatim>\<open>A\<close> answers 200, \<^verbatim>\<open>B\<close> answers 500 and every
  other request times out.
\<close>

definition exampleNetwork :: network where
  "exampleNetwork i rq =
     \<lparr>at_result =
        (if i = ''A'' then Responded 200 (Some ''ok'')
         else if i = ''B'' then Responded 500 (Some ''boom'')
         else Threw (Some ''The operation was aborted due to timeout'')),
      at_startTime = 100, at_endTime = 130, at_updatedAt = 140\<rparr>"

text \<open>
  A store with four subscriptions of organization \<^verbatim>\<open>org1\<close> to \<^verbatim>\<open>case.created\<close>:
  three active ones with 3, 3 and 9 failures, and a deactivated one.
\<close>

definition exampleStore :: db where
  "exampleStore =
     \<lparr>apiKeys = [], auditLogs = [],
      webhooks = [exampleWebhook ''A'' True 3, exampleWebhook ''B'' True 3,
                  exampleWebhook ''C'' True 9, exampleWebhook ''D'' False 10],
      webhookDeliveries = []\<rparr>"

text \<open>
  The spec's wording of step 2e of \<open>dispatch\<close>, the effect of one delivery attempt on
  the subscription: on success the failure counter is reset to 0, on failure it is
  incremented by 1, the last-delivery time is set in both cases, and the subscription is
  deactivated when the incremented counter reaches 10.
\<close>

definition attemptSucceeded :: "attempt \<Rightarrow> bool" where
  "attemptSucceeded a =
     (case at_result a of Responded status body \<Rightarrow> 200 \<le> status \<and> status \<le> 299
                        | Threw m \<Rightarrow> False)"

definition afterAttempt :: "attempt \<Rightarrow> webhook \<Rightarrow> webhook" where
  "afterAttempt a r =
     (if attemptSucceeded a
      then r\<lparr>wh_lastDeliveryAt := Some (at_updatedAt a), wh_failureCount := 0\<rparr>
      else r\<lparr>wh_lastDeliveryAt := Some (at_updatedAt a),
             wh_failureCount := wh_failureCount r + 1,
             wh_isActive := (if wh_failureCount r + 1 \<ge> 10 then False else wh_isActive r)\<rparr>)"


section \<open>Properties\<close>

lemma length_hex [simp]: "length (hex w) = 64"
  by (simp add: hex_def)

lemma length_generateSignature [simp]: "length (generateSignature h p s) = 64"
  by (simp add: generateSignature_def)

text \<open>
  C1. The claim wants a prefix wildcard \<^verbatim>\<open>X.*\<close> to cover exactly the scopes that start
  with \<^verbatim>\<open>X.\<close>, so that \<^verbatim>\<open>forms.*\<close> does not authorize \<^verbatim>\<open>formsx.read\<close>.
  The program cuts both the star and the dot off the entry before the prefix test, and
  a key holding only \<^verbatim>\<open>forms.*\<close> is granted \<^verbatim>\<open>formsx.read\<close> and the bare
  \<^verbatim>\<open>forms\<close>; the other examples of the claim come out as it says.
\<close>

theorem hasScope_formsx_read:
  "hasScope \<lparr>scopes = [''forms.*'']\<rparr> ''formsx.read'' = True \<and>
   hasScope \<lparr>scopes = [''forms.*'']\<rparr> ''forms'' = True \<and>
   hasScope \<lparr>scopes = [''forms.*'']\<rparr> ''forms.read'' = True \<and>
   hasScope \<lparr>scopes = [''forms.*'']\<rparr> ''forms.write'' = True \<and>
   hasScope \<lparr>scopes = [''forms.*'']\<rparr> ''cases.read'' = False \<and>
   hasScope \<lparr>scopes = [''*'']\<rparr> ''anything'' = True"
  by (simp add: hasScope_def endsWith_def sliceEnd_def startsWith_def)

text \<open>
  C6. The claim wants a malformed signature, one of the wrong length included, to be
  reported as a mismatch without an exception.  The computed signature always has 64
  characters, and for a three-character signature the comparison throws a
  \<^verbatim>\<open>RangeError\<close> instead of answering \<^verbatim>\<open>false\<close>, whatever the payload, the
  secret and the HMAC function are.
\<close>

theorem verifyWebhookSignature_short_signature_throws:
  "verifyWebhookSignature hmac payload ''abc'' secret = Inl RangeError"
  by (simp add: verifyWebhookSignature_def timingSafeEqual_def)

subsection \<open>Credential gateway\<close>

lemma createAuditLog_auditLogs:
  "\<exists>l. auditLogs (createAuditLog h now ps d) = auditLogs d @ [l] \<and> al_action l = p_action ps"
  by (simp add: createAuditLog_def Let_def)

lemma createAuditLog_apiKeys [simp]: "apiKeys (createAuditLog h now ps d) = apiKeys d"
  by (simp add: createAuditLog_def Let_def)

lemma apiKey_update_auditLogs: "apiKey_update wh f d = Inr d' \<Longrightarrow> auditLogs d' = auditLogs d"
  by (auto simp: apiKey_update_def split: if_splits)

lemma apiKey_create_auditLogs: "apiKey_create row d = Inr d' \<Longrightarrow> auditLogs d' = auditLogs d"
  by (auto simp: apiKey_create_def split: if_splits)

lemma validateApiKey_auditLogs:
  "validateApiKey p now key d = Inr (res, d') \<Longrightarrow> auditLogs d' = auditLogs d"
  by (auto simp: validateApiKey_def Let_def dest: apiKey_update_auditLogs
      split: if_splits option.splits sum.splits)

lemma authenticateApiRequest_auditLogs:
  "authenticateApiRequest p now h d = Inr (res, d') \<Longrightarrow> auditLogs d' = auditLogs d"
  by (auto simp: authenticateApiRequest_def Let_def dest: validateApiKey_auditLogs
      split: if_splits option.splits sum.splits prod.splits)

lemma createApiKey_auditLogs:
  assumes "createApiKey p random newId h now org name sc by ex d = Inr (row, d')"
  shows "\<exists>l. auditLogs d' = auditLogs d @ [l] \<and> al_action l = ''api_key.created''"
proof -
  from assms obtain d1 ps where c: "apiKey_create (newApiKeyRow p newId now org name
      (hex (sha256 p (API_KEY_PREFIX @ random))) (substring0 (API_KEY_PREFIX @ random) 12) sc ex by) d = Inr d1"
    and d': "d' = createAuditLog h now ps d1" and a: "p_action ps = ''api_key.created''"
    by (auto simp: createApiKey_def generateApiKey_def Let_def split: sum.splits)
  from createAuditLog_auditLogs[of h now ps d1] apiKey_create_auditLogs[OF c] d' a
  show ?thesis by auto
qed

lemma revokeApiKey_auditLogs:
  assumes "revokeApiKey h now i org by d = Inr (row, d')"
  shows "\<exists>l. auditLogs d' = auditLogs d @ [l] \<and> al_action l = ''api_key.deleted''"
proof -
  from assms obtain d1 ps where c: "apiKey_update (\<lambda>k. ak_id k = i \<and> ak_organizationId k = org)
        (\<lambda>k. k\<lparr>ak_isActive := False\<rparr>) d = Inr d1"
    and d': "d' = createAuditLog h now ps d1" and a: "p_action ps = ''api_key.deleted''"
    by (auto simp: revokeApiKey_def Let_def split: sum.splits option.splits)
  from createAuditLog_auditLogs[of h now ps d1] apiKey_update_auditLogs[OF c] d' a
  show ?thesis by auto
qed

lemma gatewayStep_auditLogs:
  "gatewayStep d d' \<Longrightarrow>
   \<exists>new. auditLogs d' = auditLogs d @ new \<and> usedEntries new = []"
proof (induction rule: gatewayStep.induct)
  case (validate p now key d res d')
  then show ?case by (auto simp: usedEntries_def dest: validateApiKey_auditLogs)
next
  case (authenticate p now headersList d ares d')
  then show ?case by (auto simp: usedEntries_def dest: authenticateApiRequest_auditLogs)
next
  case (issue p random newId headersList now organizationId name scopeList createdBy expiresAt d row d')
  from createApiKey_auditLogs[OF issue] obtain l where
    "auditLogs d' = auditLogs d @ [l]" "al_action l = ''api_key.created''" by blast
  then show ?case by (intro exI[of _ "[l]"]) (simp add: usedEntries_def)
next
  case (revoke headersList now apiKeyId organizationId revokedBy d row d')
  from revokeApiKey_auditLogs[OF revoke] obtain l where
    "auditLogs d' = auditLogs d @ [l]" "al_action l = ''api_key.deleted''" by blast
  then show ?case by (intro exI[of _ "[l]"]) (simp add: usedEntries_def)
qed

lemma reachableFrom_auditLogs:
  "reachableFrom d0 d \<Longrightarrow> \<exists>new. auditLogs d = auditLogs d0 @ new \<and> usedEntries new = []"
proof (induction rule: reachableFrom.induct)
  case (start d0)
  show ?case by (simp add: usedEntries_def)
next
  case (step d0 d d')
  then obtain n1 n2 where "auditLogs d = auditLogs d0 @ n1" "usedEntries n1 = []"
     "auditLogs d' = auditLogs d @ n2" "usedEntries n2 = []"
    using gatewayStep_auditLogs by blast
  then show ?case by (intro exI[of _ "n1 @ n2"]) (simp add: usedEntries_def)
qed

lemma recentUsage_le_used:
  "usedEntries (auditLogs d) = [] \<Longrightarrow> recentUsage ws i d = 0"
  by (auto simp: recentUsage_def usedEntries_def filter_empty_conv)


lemma find_map_preserved:
  "(\<And>r. Q (g r) = Q r) \<Longrightarrow> find Q (map g xs) = map_option g (find Q xs)"
  by (induction xs) auto

lemma find_Some_mem: "find Q xs = Some x \<Longrightarrow> Q x \<and> x \<in> set xs"
  by (induction xs) (auto split: if_splits)

lemma find_append_new:
  "\<not> list_ex Q xs \<Longrightarrow> Q x \<Longrightarrow> find Q (xs @ [x]) = Some x"
  by (induction xs) auto

lemma validateApiKey_accept:
  assumes f: "apiKey_findUniqueByKey (hex (sha256 p key)) d = Some k"
    and pre: "startsWith key API_KEY_PREFIX"
    and act: "ak_isActive k"
    and ex: "\<And>e. ak_expiresAt k = Some e \<Longrightarrow> \<not> e < now"
  shows "validateApiKey p now key d =
      Inr (Some \<lparr>v_apiKey = k, v_organization = ak_organizationId k\<rparr>,
           d\<lparr>apiKeys := map (\<lambda>r. if ak_id r = ak_id k
                  then r\<lparr>ak_lastUsedAt := Some now, ak_usageCount := ak_usageCount r + 1\<rparr>
                  else r) (apiKeys d)\<rparr>)"
proof -
  from f have "list_ex (\<lambda>r. ak_id r = ak_id k) (apiKeys d)"
    unfolding apiKey_findUniqueByKey_def
    by (auto dest!: find_Some_mem simp: list_ex_iff)
  moreover from ex have "\<not> (case ak_expiresAt k of None \<Rightarrow> False | Some e \<Rightarrow> e < now)"
    by (cases "ak_expiresAt k") auto
  ultimately show ?thesis
    using f pre act by (simp add: validateApiKey_def Let_def apiKey_update_def)
qed

lemma validateApiKey_cases:
  "validateApiKey p now key d = Inr (None, d) \<or>
   (\<exists>k. apiKey_findUniqueByKey (hex (sha256 p key)) d = Some k \<and>
        startsWith key API_KEY_PREFIX \<and> ak_isActive k \<and>
        (\<forall>e. ak_expiresAt k = Some e \<longrightarrow> \<not> e < now))"
proof (cases "apiKey_findUniqueByKey (hex (sha256 p key)) d")
  case None
  then show ?thesis by (simp add: validateApiKey_def Let_def)
next
  case (Some k)
  then show ?thesis
    by (cases "ak_expiresAt k") (auto simp: validateApiKey_def Let_def)
qed

text \<open>
  C8. \<open>validateApiKey\<close> always returns (it never throws).  It answers \<^verbatim>\<open>null\<close>,
  leaving the store as it was, for a key without the prefix, for a key whose hash
  matches no row, for an inactive row and for a row whose expiry lies before the
  current time.  It accepts every other key.  When it accepts, the result carries the row found, hence its
  organization and scopes, and the store differs only in that the row has its usage
  counter increased by one and its last-used time set to now.
\<close>

theorem validateApiKey_invalid_or_counted:
  "(\<exists>res d'. validateApiKey p now key d = Inr (res, d')) \<and>
   (\<not> startsWith key API_KEY_PREFIX \<longrightarrow> validateApiKey p now key d = Inr (None, d)) \<and>
   (apiKey_findUniqueByKey (hex (sha256 p key)) d = None \<longrightarrow>
      validateApiKey p now key d = Inr (None, d)) \<and>
   (\<forall>k. apiKey_findUniqueByKey (hex (sha256 p key)) d = Some k \<and> \<not> ak_isActive k \<longrightarrow>
      validateApiKey p now key d = Inr (None, d)) \<and>
   (\<forall>k e. apiKey_findUniqueByKey (hex (sha256 p key)) d = Some k \<and>
          ak_expiresAt k = Some e \<and> e < now \<longrightarrow>
      validateApiKey p now key d = Inr (None, d)) \<and>
   (\<forall>k. apiKey_findUniqueByKey (hex (sha256 p key)) d = Some k \<and>
        startsWith key API_KEY_PREFIX \<and> ak_isActive k \<and>
        (case ak_expiresAt k of None \<Rightarrow> True | Some e \<Rightarrow> \<not> e < now) \<longrightarrow>
      (\<exists>d'. validateApiKey p now key d =
             Inr (Some \<lparr>v_apiKey = k, v_organization = ak_organizationId k\<rparr>, d'))) \<and>
   (\<forall>v d'. validateApiKey p now key d = Inr (Some v, d') \<longrightarrow>
      (\<exists>k. apiKey_findUniqueByKey (hex (sha256 p key)) d = Some k \<and>
           v_apiKey v = k \<and> v_organization v = ak_organizationId k \<and>
           scopes (v_apiKey v) = scopes k \<and>
           d' = d\<lparr>apiKeys := map (\<lambda>r. if ak_id r = ak_id k
                  then r\<lparr>ak_lastUsedAt := Some now, ak_usageCount := ak_usageCount r + 1\<rparr>
                  else r) (apiKeys d)\<rparr> \<and>
           apiKey_findUniqueByKey (hex (sha256 p key)) d' =
             Some (k\<lparr>ak_lastUsedAt := Some now, ak_usageCount := ak_usageCount k + 1\<rparr>)))"
proof (intro conjI allI impI)
  show "\<exists>res d'. validateApiKey p now key d = Inr (res, d')"
    using validateApiKey_cases[of p now key d] validateApiKey_accept[of p key d _ now] by blast
next
  assume "\<not> startsWith key API_KEY_PREFIX"
  then show "validateApiKey p now key d = Inr (None, d)" by (simp add: validateApiKey_def)
next
  assume "apiKey_findUniqueByKey (hex (sha256 p key)) d = None"
  then show "validateApiKey p now key d = Inr (None, d)" by (simp add: validateApiKey_def Let_def)
next
  fix k assume "apiKey_findUniqueByKey (hex (sha256 p key)) d = Some k \<and> \<not> ak_isActive k"
  then show "validateApiKey p now key d = Inr (None, d)" by (simp add: validateApiKey_def Let_def)
next
  fix k e assume "apiKey_findUniqueByKey (hex (sha256 p key)) d = Some k \<and>
          ak_expiresAt k = Some e \<and> e < now"
  then show "validateApiKey p now key d = Inr (None, d)" by (simp add: validateApiKey_def Let_def)
next
  fix k assume k: "apiKey_findUniqueByKey (hex (sha256 p key)) d = Some k \<and>
        startsWith key API_KEY_PREFIX \<and> ak_isActive k \<and>
        (case ak_expiresAt k of None \<Rightarrow> True | Some e \<Rightarrow> \<not> e < now)"
  then have "\<And>e. ak_expiresAt k = Some e \<Longrightarrow> \<not> e < now" by simp
  with k validateApiKey_accept[of p key d k now]
  show "\<exists>d'. validateApiKey p now key d =
             Inr (Some \<lparr>v_apiKey = k, v_organization = ak_organizationId k\<rparr>, d')"
    by blast
next
  fix v d' assume a: "validateApiKey p now key d = Inr (Some v, d')"
  let ?g = "\<lambda>r. if ak_id r = ak_id (v_apiKey v)
                  then r\<lparr>ak_lastUsedAt := Some now, ak_usageCount := ak_usageCount r + 1\<rparr>
                  else r"
  from a validateApiKey_cases[of p now key d] obtain k where
    k: "apiKey_findUniqueByKey (hex (sha256 p key)) d = Some k" "startsWith key API_KEY_PREFIX"
       "ak_isActive k" "\<And>e. ak_expiresAt k = Some e \<Longrightarrow> \<not> e < now" by auto
  from validateApiKey_accept[OF k] a have
    v: "v = \<lparr>v_apiKey = k, v_organization = ak_organizationId k\<rparr>" and
    d': "d' = d\<lparr>apiKeys := map (\<lambda>r. if ak_id r = ak_id k
                  then r\<lparr>ak_lastUsedAt := Some now, ak_usageCount := ak_usageCount r + 1\<rparr>
                  else r) (apiKeys d)\<rparr>" by simp_all
  have "apiKey_findUniqueByKey (hex (sha256 p key)) d' =
       Some (k\<lparr>ak_lastUsedAt := Some now, ak_usageCount := ak_usageCount k + 1\<rparr>)"
    using k(1) unfolding d' apiKey_findUniqueByKey_def
    by (simp add: find_map_preserved)
  with k(1) v d' show "\<exists>k. apiKey_findUniqueByKey (hex (sha256 p key)) d = Some k \<and>
           v_apiKey v = k \<and> v_organization v = ak_organizationId k \<and>
           scopes (v_apiKey v) = scopes k \<and>
           d' = d\<lparr>apiKeys := map (\<lambda>r. if ak_id r = ak_id k
                  then r\<lparr>ak_lastUsedAt := Some now, ak_usageCount := ak_usageCount r + 1\<rparr>
                  else r) (apiKeys d)\<rparr> \<and>
           apiKey_findUniqueByKey (hex (sha256 p key)) d' =
             Some (k\<lparr>ak_lastUsedAt := Some now, ak_usageCount := ak_usageCount k + 1\<rparr>)"
    by simp
qed

lemma createApiKey_validateApiKey:
  assumes c: "createApiKey p random newId h now org name sc by ex d = Inr (row, d1)"
    and ex: "case ex of None \<Rightarrow> True | Some e \<Rightarrow> \<not> e < now'"
  shows "\<exists>v d2. validateApiKey p now' (ak_key row) d1 = Inr (Some v, d2) \<and>
           ak_organizationId (v_apiKey v) = org \<and> v_organization v = org \<and>
           scopes (v_apiKey v) = sc"
proof -
  let ?key = "API_KEY_PREFIX @ random"
  let ?new = "newApiKeyRow p newId now org name (hex (sha256 p ?key)) (substring0 ?key 12) sc ex by"
  from c obtain dA ps where cr: "apiKey_create ?new d = Inr dA"
    and d1: "d1 = createAuditLog h now ps dA" and row: "row = ?new\<lparr>ak_key := ?key\<rparr>"
    by (auto simp: createApiKey_def generateApiKey_def Let_def split: sum.splits)
  from cr have fresh: "\<not> list_ex (\<lambda>k. ak_key k = hex (sha256 p ?key)) (apiKeys d)"
    and dA: "apiKeys dA = apiKeys d @ [?new]"
    by (auto simp: apiKey_create_def list_ex_iff newApiKeyRow_def split: if_splits)
  have f: "apiKey_findUniqueByKey (hex (sha256 p ?key)) d1 = Some ?new"
    unfolding apiKey_findUniqueByKey_def d1 using dA fresh
    by (simp add: find_append_new newApiKeyRow_def)
  have pre: "startsWith ?key API_KEY_PREFIX" by (simp add: startsWith_def)
  have act: "ak_isActive ?new" by (simp add: newApiKeyRow_def)
  have exn: "\<And>e. ak_expiresAt ?new = Some e \<Longrightarrow> \<not> e < now'"
    using ex by (auto simp: newApiKeyRow_def)
  from validateApiKey_accept[OF f pre act exn] row show ?thesis
    by (simp add: newApiKeyRow_def)
qed

text \<open>
  C9. When \<open>createApiKey\<close> has stored a credential, validating the raw key it returned
  succeeds and yields the organization and the scopes given at issuance.  Issuance as
  the claim describes it passes no expiry (\<open>ex = None\<close>); the statement also covers a
  credential issued with an expiry that has not passed when the key is validated.
\<close>

theorem issue_then_authenticate:
  assumes "createApiKey p random newId h now org name sc by ex d = Inr (row, d1)"
    and "case ex of None \<Rightarrow> True | Some e \<Rightarrow> \<not> e < now'"
  shows "\<exists>v d2. validateApiKey p now' (ak_key row) d1 = Inr (Some v, d2) \<and>
           ak_organizationId (v_apiKey v) = org \<and> v_organization v = org \<and>
           scopes (v_apiKey v) = sc"
  using assms by (rule createApiKey_validateApiKey)




text \<open>
  C2, as amended.  Every audit entry that the gateway's operations append has an action
  other than \<^verbatim>\<open>api_key.used\<close>.  So in every store reached from one without such
  entries the counted usage is 0, \<open>checkRateLimit\<close> returns \<open>allowed = (limit > 0)\<close>
  and \<open>remaining = max 0 limit\<close> (which is the limit unless that is negative), and a
  request whose key validates and has a positive ceiling is never answered with status
  429.
\<close>

theorem gateway_never_counts_usage:
  assumes r: "reachableFrom d0 d" and clean: "usedEntries (auditLogs d0) = []"
  shows "(\<exists>new. auditLogs d = auditLogs d0 @ new \<and> usedEntries new = []) \<and>
     recentUsage windowStart apiKeyId d = 0 \<and>
     checkRateLimit now apiKeyId limit d =
       \<lparr>allowed = (0 < limit), remaining = max 0 limit, resetAt = now\<rparr> \<and>
     (validateApiKey p now key d = Inr (Some v, d1) \<and> 0 < ak_rateLimit (v_apiKey v) \<and>
      h ''authorization'' = Some (''Bearer '' @ key) \<longrightarrow>
      authenticateApiRequest p now h d =
        Inr (AuthOk (v_apiKey v) (v_organization v)
              [(''X-RateLimit-Limit'', intToString (ak_rateLimit (v_apiKey v))),
               (''X-RateLimit-Remaining'', intToString (ak_rateLimit (v_apiKey v)))], d1))"
proof -
  from reachableFrom_auditLogs[OF r] obtain new where
    new: "auditLogs d = auditLogs d0 @ new" "usedEntries new = []" by blast
  with clean have u: "usedEntries (auditLogs d) = []" by (simp add: usedEntries_def)
  then have zero: "\<And>ws i. recentUsage ws i d = 0" by (rule recentUsage_le_used)
  have crl: "\<And>i l. checkRateLimit now i l d =
       \<lparr>allowed = (0 < l), remaining = max 0 l, resetAt = now\<rparr>"
    by (auto simp: checkRateLimit_def Let_def zero)
  have auth: "authenticateApiRequest p now h d =
        Inr (AuthOk (v_apiKey v) (v_organization v)
              [(''X-RateLimit-Limit'', intToString (ak_rateLimit (v_apiKey v))),
               (''X-RateLimit-Remaining'', intToString (ak_rateLimit (v_apiKey v)))], d1)"
    if v: "validateApiKey p now key d = Inr (Some v, d1)" and pos: "0 < ak_rateLimit (v_apiKey v)"
      and hdr: "h ''authorization'' = Some (''Bearer '' @ key)"
  proof -
    from validateApiKey_auditLogs[OF v] u have "usedEntries (auditLogs d1) = []" by simp
    then have "\<And>ws i. recentUsage ws i d1 = 0" by (rule recentUsage_le_used)
    then have "checkRateLimit now (ak_id (v_apiKey v)) (ak_rateLimit (v_apiKey v)) d1 =
       \<lparr>allowed = True, remaining = ak_rateLimit (v_apiKey v), resetAt = now\<rparr>"
      using pos by (auto simp: checkRateLimit_def Let_def)
    then show ?thesis using v hdr
      by (simp add: authenticateApiRequest_def Let_def startsWith_def substringFrom_def)
  qed
  from new zero crl auth show ?thesis by blast
qed

text \<open>
  C2 as stated has \<open>remaining = limit\<close>; for the limit \<open>-1\<close> the remaining allowance
  is 0.
\<close>

theorem gateway_remaining_counterexample:
  "reachableFrom emptyDb emptyDb \<and>
   remaining (checkRateLimit 0 ''key1'' (- 1) emptyDb) \<noteq> - 1"
  by (simp add: reachableFrom.start checkRateLimit_def recentUsage_def emptyDb_def Let_def)




theorem validateApiKey_invalid_or_counted_witness:
  "validateApiKey examplePlatform 10 ''secret'' (emptyDb\<lparr>apiKeys := [exampleApiKey ''key1'' True None]\<rparr>) =
     Inr (None, emptyDb\<lparr>apiKeys := [exampleApiKey ''key1'' True None]\<rparr>) \<and>
   validateApiKey examplePlatform 10 ''ip_a'' emptyDb = Inr (None, emptyDb) \<and>
   validateApiKey examplePlatform 10 ''ip_a'' (emptyDb\<lparr>apiKeys := [exampleApiKey ''key1'' False None]\<rparr>) =
     Inr (None, emptyDb\<lparr>apiKeys := [exampleApiKey ''key1'' False None]\<rparr>) \<and>
   validateApiKey examplePlatform 10 ''ip_a'' (emptyDb\<lparr>apiKeys := [exampleApiKey ''key1'' True (Some 9)]\<rparr>) =
     Inr (None, emptyDb\<lparr>apiKeys := [exampleApiKey ''key1'' True (Some 9)]\<rparr>) \<and>
   validateApiKey examplePlatform 10 ''ip_a'' (emptyDb\<lparr>apiKeys := [exampleApiKey ''key1'' True (Some 10)]\<rparr>) =
     Inr (Some \<lparr>v_apiKey = exampleApiKey ''key1'' True (Some 10), v_organization = ''org1''\<rparr>,
          emptyDb\<lparr>apiKeys := [(exampleApiKey ''key1'' True (Some 10))
                                  \<lparr>ak_lastUsedAt := Some 10, ak_usageCount := 8\<rparr>]\<rparr>)"
proof -
  have h: "hex (sha256 examplePlatform key) = hex 0" for key
    by (simp add: examplePlatform_def)
  have f: "apiKey_findUniqueByKey (hex 0) (emptyDb\<lparr>apiKeys := [exampleApiKey i a e]\<rparr>) =
        Some (exampleApiKey i a e)" for i a e
    by (simp add: apiKey_findUniqueByKey_def exampleApiKey_def)
  have c1: "validateApiKey examplePlatform 10 ''secret''
      (emptyDb\<lparr>apiKeys := [exampleApiKey ''key1'' True None]\<rparr>) =
     Inr (None, emptyDb\<lparr>apiKeys := [exampleApiKey ''key1'' True None]\<rparr>)"
    by (rule validateApiKey_invalid_or_counted[THEN conjunct2, THEN conjunct1, rule_format])
       (simp add: startsWith_def API_KEY_PREFIX_def)
  have c2: "validateApiKey examplePlatform 10 ''ip_a'' emptyDb = Inr (None, emptyDb)"
    by (rule validateApiKey_invalid_or_counted[THEN conjunct2, THEN conjunct2, THEN conjunct1,
          rule_format])
       (simp add: apiKey_findUniqueByKey_def emptyDb_def)
  have c3: "validateApiKey examplePlatform 10 ''ip_a''
      (emptyDb\<lparr>apiKeys := [exampleApiKey ''key1'' False None]\<rparr>) =
     Inr (None, emptyDb\<lparr>apiKeys := [exampleApiKey ''key1'' False None]\<rparr>)"
    by (rule validateApiKey_invalid_or_counted[THEN conjunct2, THEN conjunct2, THEN conjunct2,
          THEN conjunct1, rule_format, of _ _ _ "exampleApiKey ''key1'' False None"])
       (simp add: h f, simp add: exampleApiKey_def)
  have c4: "validateApiKey examplePlatform 10 ''ip_a''
      (emptyDb\<lparr>apiKeys := [exampleApiKey ''key1'' True (Some 9)]\<rparr>) =
     Inr (None, emptyDb\<lparr>apiKeys := [exampleApiKey ''key1'' True (Some 9)]\<rparr>)"
    by (rule validateApiKey_invalid_or_counted[THEN conjunct2, THEN conjunct2, THEN conjunct2,
          THEN conjunct2, THEN conjunct1, rule_format,
          of _ _ _ "exampleApiKey ''key1'' True (Some 9)" 9])
       (simp add: h f, simp add: exampleApiKey_def)
  let ?ok = "emptyDb\<lparr>apiKeys := [exampleApiKey ''key1'' True (Some 10)]\<rparr>"
  let ?k = "exampleApiKey ''key1'' True (Some 10)"
  have "\<exists>d'. validateApiKey examplePlatform 10 ''ip_a'' ?ok =
           Inr (Some \<lparr>v_apiKey = ?k, v_organization = ak_organizationId ?k\<rparr>, d')"
    by (rule validateApiKey_invalid_or_counted[THEN conjunct2, THEN conjunct2, THEN conjunct2,
          THEN conjunct2, THEN conjunct2, THEN conjunct1, rule_format])
       (simp add: h f, simp add: exampleApiKey_def startsWith_def API_KEY_PREFIX_def)
  then obtain d' where v: "validateApiKey examplePlatform 10 ''ip_a'' ?ok =
           Inr (Some \<lparr>v_apiKey = ?k, v_organization = ak_organizationId ?k\<rparr>, d')" ..
  from validateApiKey_invalid_or_counted[THEN conjunct2, THEN conjunct2, THEN conjunct2,
          THEN conjunct2, THEN conjunct2, THEN conjunct2, rule_format, OF v]
  have "d' = ?ok\<lparr>apiKeys := map (\<lambda>r. if ak_id r = ak_id ?k
                  then r\<lparr>ak_lastUsedAt := Some 10, ak_usageCount := ak_usageCount r + 1\<rparr>
                  else r) (apiKeys ?ok)\<rparr>"
    by (simp add: h f)
  then have "d' = emptyDb\<lparr>apiKeys := [?k\<lparr>ak_lastUsedAt := Some 10, ak_usageCount := 8\<rparr>]\<rparr>"
    by (simp add: exampleApiKey_def emptyDb_def)
  with v have c5: "validateApiKey examplePlatform 10 ''ip_a'' ?ok =
     Inr (Some \<lparr>v_apiKey = ?k, v_organization = ''org1''\<rparr>,
          emptyDb\<lparr>apiKeys := [?k\<lparr>ak_lastUsedAt := Some 10, ak_usageCount := 8\<rparr>]\<rparr>)"
    by (simp add: exampleApiKey_def)
  from c1 c2 c3 c4 c5 show ?thesis by blast
qed


theorem issue_then_authenticate_witness:
  "(case createApiKey examplePlatform ''a'' ''key1'' Map.empty 5 ''org1'' ''ci''
           [''cases.read'', ''forms.*''] ''user1'' None emptyDb of
      Inl e \<Rightarrow> False
    | Inr (row, d1) \<Rightarrow>
        ak_key row = ''ip_a'' \<and>
        (\<exists>v d2. validateApiKey examplePlatform 99 ''ip_a'' d1 = Inr (Some v, d2) \<and>
           ak_organizationId (v_apiKey v) = ''org1'' \<and> v_organization v = ''org1'' \<and>
           scopes (v_apiKey v) = [''cases.read'', ''forms.*'']))"
proof -
  let ?c = "createApiKey examplePlatform ''a'' ''key1'' Map.empty 5 ''org1'' ''ci''
           [''cases.read'', ''forms.*''] ''user1'' None emptyDb"
  have "\<exists>row d1. ?c = Inr (row, d1) \<and> ak_key row = ''ip_a''"
    by (simp add: createApiKey_def generateApiKey_def apiKey_create_def emptyDb_def Let_def
        API_KEY_PREFIX_def)
  then obtain row d1 where c: "?c = Inr (row, d1)" and k: "ak_key row = ''ip_a''" by blast
  have e: "case (None :: time option) of None \<Rightarrow> True | Some e \<Rightarrow> \<not> e < 99" by simp
  from issue_then_authenticate[OF c e] k show ?thesis by (simp add: c)
qed

theorem gateway_never_counts_usage_witness:
  "(case createApiKey examplePlatform ''a'' ''key1'' Map.empty 5 ''org1'' ''ci''
           [''cases.read''] ''user1'' None emptyDb of
      Inl e \<Rightarrow> False
    | Inr (row, d) \<Rightarrow>
        reachableFrom emptyDb d \<and> usedEntries (auditLogs emptyDb) = [] \<and>
        length (auditLogs d) = 1 \<and>
        recentUsage 0 ''key1'' d = 0 \<and>
        checkRateLimit 99 ''key1'' 1000 d = \<lparr>allowed = True, remaining = 1000, resetAt = 99\<rparr> \<and>
        checkRateLimit 99 ''key1'' (- 1) d = \<lparr>allowed = False, remaining = 0, resetAt = 99\<rparr> \<and>
        (\<exists>v d1. validateApiKey examplePlatform 99 ''ip_a'' d = Inr (Some v, d1) \<and>
           0 < ak_rateLimit (v_apiKey v) \<and>
           authenticateApiRequest examplePlatform 99 [''authorization'' \<mapsto> ''Bearer ip_a''] d =
             Inr (AuthOk (v_apiKey v) ''org1''
                   [(''X-RateLimit-Limit'', ''1000''), (''X-RateLimit-Remaining'', ''1000'')], d1)))"
proof -
  let ?c = "createApiKey examplePlatform ''a'' ''key1'' Map.empty 5 ''org1'' ''ci''
           [''cases.read''] ''user1'' None emptyDb"
  have "\<exists>row d. ?c = Inr (row, d) \<and> ak_key row = ''ip_a'' \<and> length (auditLogs d) = 1"
    by (simp add: createApiKey_def generateApiKey_def apiKey_create_def emptyDb_def Let_def
        API_KEY_PREFIX_def createAuditLog_def)
  then obtain row d where c: "?c = Inr (row, d)" and k: "ak_key row = ''ip_a''"
    and l: "length (auditLogs d) = 1" by blast
  have r: "reachableFrom emptyDb d"
    by (rule reachableFrom.step[OF reachableFrom.start gatewayStep.issue[OF c]])
  have u: "usedEntries (auditLogs emptyDb) = []" by (simp add: usedEntries_def emptyDb_def)
  have e: "case (None :: time option) of None \<Rightarrow> True | Some e \<Rightarrow> \<not> e < 99" by simp
  from createApiKey_validateApiKey[OF c e] k obtain v d1 where
    v: "validateApiKey examplePlatform 99 ''ip_a'' d = Inr (Some v, d1)"
    and o: "v_organization v = ''org1''" by auto
  from v have "\<exists>k. v_apiKey v = k \<and> k \<in> set (apiKeys d)"
    by (auto simp: validateApiKey_def Let_def apiKey_findUniqueByKey_def
        split: if_splits option.splits sum.splits dest: find_Some_mem)
  moreover from c have "\<forall>k\<in>set (apiKeys d). ak_rateLimit k = 1000"
    by (auto simp: createApiKey_def generateApiKey_def apiKey_create_def emptyDb_def Let_def
        newApiKeyRow_def examplePlatform_def)
  ultimately have rl: "ak_rateLimit (v_apiKey v) = 1000" by auto
  have hd: "[''authorization'' \<mapsto> ''Bearer ip_a''] ''authorization'' = Some (''Bearer '' @ ''ip_a'')"
    by simp
  have n: "intToString 1000 = ''1000''"
    by (simp add: intToString_def hexDigit_def)
  note T = gateway_never_counts_usage[OF r u, where now = 99 and p = examplePlatform
      and key = "''ip_a''" and v = v and ?d1.0 = d1
      and h = "[''authorization'' \<mapsto> ''Bearer ip_a'']" and windowStart = 0
      and apiKeyId = "''key1''"]
  from T[where limit = 1000] T[where limit = "- 1"] v rl hd o n l
  show ?thesis by (simp add: c r u)
qed

subsection \<open>Event dispatcher\<close>

lemma find_map_by_id:
  assumes "\<And>w. wh_id (f w) = wh_id w"
  shows "find (\<lambda>w. wh_id w = j) (map (\<lambda>w. if wh_id w = i then f w else w) ws) =
         (if j = i then map_option f (find (\<lambda>w. wh_id w = i) ws)
          else find (\<lambda>w. wh_id w = j) ws)"
  using assms by (induction ws) auto

lemma map_id_update:
  assumes "\<And>w. wh_id (f w) = wh_id w"
  shows "map wh_id (map (\<lambda>w. if wh_id w = i then f w else w) ws) = map wh_id ws"
  using assms by (induction ws) auto

lemma find_id_Some_iff:
  "(\<exists>r. find (\<lambda>w. wh_id w = i) ws = Some r) = (i \<in> wh_id ` set ws)"
  by (induction ws) auto

lemma findUnique_Some_iff:
  "(\<exists>r. webhook_findUnique i d = Some r) = (i \<in> wh_id ` set (webhooks d))"
  unfolding webhook_findUnique_def by (rule find_id_Some_iff)

lemma findUnique_list_ex:
  "webhook_findUnique i d = Some r \<Longrightarrow> list_ex (\<lambda>w. wh_id w = i) (webhooks d)"
  using findUnique_Some_iff[of i d] by (auto simp: list_ex_iff)

lemma classify_success: "fst (classify (at_result a)) = attemptSucceeded a"
  by (simp add: classify_def attemptSucceeded_def responseOk_def Let_def split: fetchResult.splits)

lemma deliveryRow_fields [simp]:
  "wd_webhookId (deliveryRow i event payload a) = i"
  "wd_event (deliveryRow i event payload a) = event"
  "wd_payload (deliveryRow i event payload a) = payload"
  "wd_success (deliveryRow i event payload a) = attemptSucceeded a"
  "wd_duration (deliveryRow i event payload a) = at_endTime a - at_startTime a"
  using classify_success[of a]
  by (cases "classify (at_result a)"; simp add: deliveryRow_def)+

lemma deliver_Inr:
  assumes r: "webhook_findUnique (wh_id w) d = Some r"
  shows "deliver p net now event payload w d =
     Inr (\<lparr>o_webhookId = wh_id w,
           o_success = attemptSucceeded (sendRequest p net now event payload w),
           o_error = snd (snd (snd (classify (at_result (sendRequest p net now event payload w)))))\<rparr>,
          d\<lparr>webhooks := map (\<lambda>x. if wh_id x = wh_id w
                 then x\<lparr>wh_lastDeliveryAt := Some (at_updatedAt (sendRequest p net now event payload w)),
                        wh_failureCount :=
                          (if attemptSucceeded (sendRequest p net now event payload w) then 0
                           else wh_failureCount x + 1),
                        wh_isActive :=
                          (if \<not> attemptSucceeded (sendRequest p net now event payload w) \<and>
                              wh_failureCount r + 1 \<ge> 10 then False else wh_isActive x)\<rparr>
                 else x) (webhooks d),
            webhookDeliveries := webhookDeliveries d @
              [deliveryRow (wh_id w) event payload (sendRequest p net now event payload w)]\<rparr>)"
proof -
  let ?a = "sendRequest p net now event payload w"
  let ?i = "wh_id w"
  obtain s sc b e where c: "classify (at_result ?a) = (s, sc, b, e)"
    by (cases "classify (at_result ?a)") auto
  then have s: "s = attemptSucceeded ?a" using classify_success[of ?a] by simp
  let ?d1 = "recordDelivery ?i event payload ?a d"
  let ?upd = "\<lambda>x. x\<lparr>wh_lastDeliveryAt := Some (at_updatedAt ?a),
                     wh_failureCount := (if s then 0 else wh_failureCount x + 1)\<rparr>"
  let ?d2 = "?d1\<lparr>webhooks := map (\<lambda>x. if wh_id x = ?i then ?upd x else x) (webhooks ?d1)\<rparr>"
  have w1: "webhooks ?d1 = webhooks d"
    by (simp add: recordDelivery_def webhookDelivery_create_def)
  have ex: "list_ex (\<lambda>x. wh_id x = ?i) (webhooks ?d1)"
    using findUnique_list_ex[OF r] w1 by simp
  have u: "updateStats ?i s (at_updatedAt ?a) ?d1 = Inr ?d2"
    using ex by (simp add: updateStats_def webhook_update_def)
  have f2: "webhook_findUnique ?i ?d2 = Some (?upd r)"
    using r unfolding webhook_findUnique_def by (simp add: w1 find_map_by_id)
  have ex2: "list_ex (\<lambda>x. wh_id x = ?i) (webhooks ?d2)"
    using findUnique_list_ex[OF f2] .
  show ?thesis
  proof (cases s)
    case True
    then show ?thesis using c u s
      by (simp add: deliver_def Let_def recordDelivery_def webhookDelivery_create_def)
  next
    case False
    show ?thesis
    proof (cases "wh_failureCount r + 1 \<ge> 10")
      case True
      with False f2 ex2 have "disableAfterFailures ?i ?d2 =
          Inr (?d2\<lparr>webhooks := map (\<lambda>x. if wh_id x = ?i then x\<lparr>wh_isActive := False\<rparr> else x)
                 (webhooks ?d2)\<rparr>)"
        by (simp add: disableAfterFailures_def webhook_update_def)
      with False True c u s show ?thesis
        by (simp add: deliver_def Let_def recordDelivery_def webhookDelivery_create_def
            comp_def if_distrib cong: if_cong)
    next
      case nd: False
      with False f2 have "disableAfterFailures ?i ?d2 = Inr ?d2"
        by (simp add: disableAfterFailures_def)
      with False nd c u s show ?thesis
        by (simp add: deliver_def Let_def recordDelivery_def webhookDelivery_create_def)
    qed
  qed
qed


lemma deliver_effect:
  assumes r: "webhook_findUnique (wh_id w) d = Some r"
  shows "\<exists>out d'. deliver p net now event payload w d = Inr (out, d') \<and>
     out = \<lparr>o_webhookId = wh_id w,
            o_success = attemptSucceeded (sendRequest p net now event payload w),
            o_error = snd (snd (snd (classify (at_result (sendRequest p net now event payload w)))))\<rparr> \<and>
     webhookDeliveries d' = webhookDeliveries d @
        [deliveryRow (wh_id w) event payload (sendRequest p net now event payload w)] \<and>
     map wh_id (webhooks d') = map wh_id (webhooks d) \<and>
     webhook_findUnique (wh_id w) d' = Some (afterAttempt (sendRequest p net now event payload w) r) \<and>
     (\<forall>j. j \<noteq> wh_id w \<longrightarrow> webhook_findUnique j d' = webhook_findUnique j d)"
proof -
  define a where "a = sendRequest p net now event payload w"
  define g where "g = (\<lambda>x::webhook. x\<lparr>wh_lastDeliveryAt := Some (at_updatedAt a),
                    wh_failureCount := (if attemptSucceeded a then 0 else wh_failureCount x + 1),
                    wh_isActive := (if \<not> attemptSucceeded a \<and> wh_failureCount r + 1 \<ge> 10
                                    then False else wh_isActive x)\<rparr>)"
  define out where "out = \<lparr>o_webhookId = wh_id w, o_success = attemptSucceeded a,
            o_error = snd (snd (snd (classify (at_result a))))\<rparr>"
  define d' where "d' = d\<lparr>webhooks := map (\<lambda>x. if wh_id x = wh_id w then g x else x) (webhooks d),
            webhookDeliveries := webhookDeliveries d @ [deliveryRow (wh_id w) event payload a]\<rparr>"
  have D: "deliver p net now event payload w d = Inr (out, d')"
    unfolding out_def d'_def g_def a_def by (rule deliver_Inr[OF r])
  have id: "\<And>x. wh_id (g x) = wh_id x" by (simp add: g_def)
  have gr: "g r = afterAttempt a r" by (simp add: g_def afterAttempt_def)
  have 1: "webhookDeliveries d' = webhookDeliveries d @ [deliveryRow (wh_id w) event payload a]"
    by (simp add: d'_def)
  have 2: "map wh_id (webhooks d') = map wh_id (webhooks d)"
    using map_id_update[of g "wh_id w" "webhooks d", OF id] by (simp add: d'_def)
  have 3: "webhook_findUnique j d' =
        (if j = wh_id w then map_option g (webhook_findUnique (wh_id w) d)
         else webhook_findUnique j d)" for j
    unfolding webhook_findUnique_def d'_def
    using find_map_by_id[of g j "wh_id w" "webhooks d", OF id] by simp
  have 4: "webhook_findUnique (wh_id w) d' = Some (afterAttempt a r)"
    using 3[of "wh_id w"] r gr by simp
  have 5: "\<forall>j. j \<noteq> wh_id w \<longrightarrow> webhook_findUnique j d' = webhook_findUnique j d"
    using 3 by simp
  from D 1 2 4 5 show ?thesis unfolding out_def a_def by blast
qed


lemma deliverAll_effect:
  assumes "wh_id ` set ws \<subseteq> wh_id ` set (webhooks d)"
  shows "\<exists>outs d'. deliverAll p net now event payload ws d = Inr (outs, d') \<and>
     outs = map (\<lambda>w. \<lparr>o_webhookId = wh_id w,
            o_success = attemptSucceeded (sendRequest p net now event payload w),
            o_error = snd (snd (snd (classify (at_result (sendRequest p net now event payload w)))))\<rparr>) ws \<and>
     webhookDeliveries d' = webhookDeliveries d @
        map (\<lambda>w. deliveryRow (wh_id w) event payload (sendRequest p net now event payload w)) ws \<and>
     map wh_id (webhooks d') = map wh_id (webhooks d) \<and>
     (\<forall>j. j \<notin> wh_id ` set ws \<longrightarrow> webhook_findUnique j d' = webhook_findUnique j d) \<and>
     (distinct (map wh_id ws) \<longrightarrow>
        (\<forall>w\<in>set ws. \<forall>r. webhook_findUnique (wh_id w) d = Some r \<longrightarrow>
           webhook_findUnique (wh_id w) d' =
             Some (afterAttempt (sendRequest p net now event payload w) r)))"
  using assms
proof (induction ws arbitrary: d)
  case Nil
  show ?case by simp
next
  case (Cons w ws)
  from Cons.prems have "wh_id w \<in> wh_id ` set (webhooks d)" by simp
  then obtain r where r: "webhook_findUnique (wh_id w) d = Some r"
    using findUnique_Some_iff[of "wh_id w" d] by blast
  from deliver_effect[OF r, of p net now event payload] obtain out d1 where
    D: "deliver p net now event payload w d = Inr (out, d1)" and
    out: "out = \<lparr>o_webhookId = wh_id w,
            o_success = attemptSucceeded (sendRequest p net now event payload w),
            o_error = snd (snd (snd (classify (at_result (sendRequest p net now event payload w)))))\<rparr>" and
    del1: "webhookDeliveries d1 = webhookDeliveries d @
        [deliveryRow (wh_id w) event payload (sendRequest p net now event payload w)]" and
    ids1: "map wh_id (webhooks d1) = map wh_id (webhooks d)" and
    own1: "webhook_findUnique (wh_id w) d1 =
        Some (afterAttempt (sendRequest p net now event payload w) r)" and
    oth1: "\<And>j. j \<noteq> wh_id w \<Longrightarrow> webhook_findUnique j d1 = webhook_findUnique j d"
    by blast
  from ids1 have "wh_id ` set (webhooks d1) = wh_id ` set (webhooks d)"
    by (metis set_map)
  with Cons.prems have sub: "wh_id ` set ws \<subseteq> wh_id ` set (webhooks d1)" by simp
  from Cons.IH[OF sub] obtain outs d' where
    A: "deliverAll p net now event payload ws d1 = Inr (outs, d')" and
    outs: "outs = map (\<lambda>w. \<lparr>o_webhookId = wh_id w,
            o_success = attemptSucceeded (sendRequest p net now event payload w),
            o_error = snd (snd (snd (classify (at_result (sendRequest p net now event payload w)))))\<rparr>) ws" and
    del: "webhookDeliveries d' = webhookDeliveries d1 @
        map (\<lambda>w. deliveryRow (wh_id w) event payload (sendRequest p net now event payload w)) ws" and
    ids: "map wh_id (webhooks d') = map wh_id (webhooks d1)" and
    oth: "\<And>j. j \<notin> wh_id ` set ws \<Longrightarrow> webhook_findUnique j d' = webhook_findUnique j d1" and
    own: "distinct (map wh_id ws) \<Longrightarrow> (\<forall>w\<in>set ws. \<forall>r. webhook_findUnique (wh_id w) d1 = Some r \<longrightarrow>
           webhook_findUnique (wh_id w) d' =
             Some (afterAttempt (sendRequest p net now event payload w) r))"
    by blast
  have R: "deliverAll p net now event payload (w # ws) d = Inr (out # outs, d')"
    using D A by simp
  have c4: "\<forall>j. j \<notin> wh_id ` set (w # ws) \<longrightarrow> webhook_findUnique j d' = webhook_findUnique j d"
    using oth oth1 by simp
  have c5: "\<forall>w'\<in>set (w # ws). \<forall>r'. webhook_findUnique (wh_id w') d = Some r' \<longrightarrow>
           webhook_findUnique (wh_id w') d' =
             Some (afterAttempt (sendRequest p net now event payload w') r')"
    if dist: "distinct (map wh_id (w # ws))"
  proof (intro ballI allI impI)
    fix w' r' assume w': "w' \<in> set (w # ws)" and r': "webhook_findUnique (wh_id w') d = Some r'"
    from dist have nw: "wh_id w \<notin> wh_id ` set ws" and dws: "distinct (map wh_id ws)" by auto
    show "webhook_findUnique (wh_id w') d' =
             Some (afterAttempt (sendRequest p net now event payload w') r')"
    proof (cases "wh_id w' = wh_id w")
      case True
      with w' nw have "w' = w" by (auto simp: image_iff)
      with r r' own1 oth[OF nw] show ?thesis by simp
    next
      case False
      with w' have "w' \<in> set ws" by auto
      moreover from False r' oth1 have "webhook_findUnique (wh_id w') d1 = Some r'" by simp
      ultimately show ?thesis using own[OF dws] by blast
    qed
  qed
  from R out outs del del1 ids ids1 c4 c5 show ?case
    by (intro exI[of _ "out # outs"] exI[of _ d']) simp
qed


lemma matching_subset: "set (matching org event d) \<subseteq> set (webhooks d)"
  by (auto simp: matching_def)

lemma matching_distinct:
  "distinct (map wh_id (webhooks d)) \<Longrightarrow> distinct (map wh_id (matching org event d))"
  by (simp add: matching_def distinct_map_filter)


lemma find_distinct_id:
  "distinct (map wh_id ws) \<Longrightarrow> w \<in> set ws \<Longrightarrow> find (\<lambda>x. wh_id x = wh_id w) ws = Some w"
  by (induction ws) (auto simp: image_iff)

lemma findUnique_row:
  "distinct (map wh_id (webhooks d)) \<Longrightarrow> w \<in> set (webhooks d) \<Longrightarrow>
   webhook_findUnique (wh_id w) d = Some w"
  unfolding webhook_findUnique_def by (rule find_distinct_id)


lemma triggerWebhooks_none:
  "matching org event d = [] \<Longrightarrow> triggerWebhooks p net now org event data d = Inr (None, d)"
  by (simp add: triggerWebhooks_def)

lemma triggerWebhooks_effect:
  assumes ne: "matching org event d \<noteq> []"
  shows "\<exists>outs d'. triggerWebhooks p net now org event data d = Inr (Some outs, d') \<and>
     outs = map (\<lambda>w. \<lparr>o_webhookId = wh_id w,
            o_success = attemptSucceeded
               (sendRequest p net now event (webhookPayload p now org event data) w),
            o_error = snd (snd (snd (classify (at_result
               (sendRequest p net now event (webhookPayload p now org event data) w)))))\<rparr>)
          (matching org event d) \<and>
     webhookDeliveries d' = webhookDeliveries d @
        map (\<lambda>w. deliveryRow (wh_id w) event (webhookPayload p now org event data)
               (sendRequest p net now event (webhookPayload p now org event data) w))
          (matching org event d) \<and>
     map wh_id (webhooks d') = map wh_id (webhooks d) \<and>
     (\<forall>j. j \<notin> wh_id ` set (matching org event d) \<longrightarrow>
          webhook_findUnique j d' = webhook_findUnique j d) \<and>
     (distinct (map wh_id (webhooks d)) \<longrightarrow>
        (\<forall>w\<in>set (matching org event d).
           webhook_findUnique (wh_id w) d' =
             Some (afterAttempt
                (sendRequest p net now event (webhookPayload p now org event data) w) w)))"
proof -
  have sub: "wh_id ` set (matching org event d) \<subseteq> wh_id ` set (webhooks d)"
    using matching_subset[of org event d] by blast
  from deliverAll_effect[OF sub, of p net now event "webhookPayload p now org event data"]
  obtain outs d' where
    A: "deliverAll p net now event (webhookPayload p now org event data)
          (matching org event d) d = Inr (outs, d')" and
    rest: "outs = map (\<lambda>w. \<lparr>o_webhookId = wh_id w,
            o_success = attemptSucceeded
               (sendRequest p net now event (webhookPayload p now org event data) w),
            o_error = snd (snd (snd (classify (at_result
               (sendRequest p net now event (webhookPayload p now org event data) w)))))\<rparr>)
          (matching org event d)"
     "webhookDeliveries d' = webhookDeliveries d @
        map (\<lambda>w. deliveryRow (wh_id w) event (webhookPayload p now org event data)
               (sendRequest p net now event (webhookPayload p now org event data) w))
          (matching org event d)"
     "map wh_id (webhooks d') = map wh_id (webhooks d)"
     "\<forall>j. j \<notin> wh_id ` set (matching org event d) \<longrightarrow>
          webhook_findUnique j d' = webhook_findUnique j d" and
    own: "distinct (map wh_id (matching org event d)) \<longrightarrow>
        (\<forall>w\<in>set (matching org event d). \<forall>r. webhook_findUnique (wh_id w) d = Some r \<longrightarrow>
           webhook_findUnique (wh_id w) d' =
             Some (afterAttempt
                (sendRequest p net now event (webhookPayload p now org event data) w) r))"
    by blast
  have T: "triggerWebhooks p net now org event data d = Inr (Some outs, d')"
    using ne A by (simp add: triggerWebhooks_def Let_def)
  have own': "\<forall>w\<in>set (matching org event d).
           webhook_findUnique (wh_id w) d' =
             Some (afterAttempt
                (sendRequest p net now event (webhookPayload p now org event data) w) w)"
    if dist: "distinct (map wh_id (webhooks d))"
  proof
    fix w assume w: "w \<in> set (matching org event d)"
    with matching_subset have "w \<in> set (webhooks d)" by blast
    from findUnique_row[OF dist this] own matching_distinct[OF dist] w
    show "webhook_findUnique (wh_id w) d' =
             Some (afterAttempt
                (sendRequest p net now event (webhookPayload p now org event data) w) w)"
      by blast
  qed
  from T rest own' show ?thesis by blast
qed


text \<open>
  C5, as amended.  When no active subscription of the organization contains the event,
  \<open>triggerWebhooks\<close> returns at once without an outcome list (the result of the bare
  \<^verbatim>\<open>return\<close> is \<^verbatim>\<open>undefined\<close>) and leaves the store as it was, so no delivery
  record is created.
\<close>

theorem triggerWebhooks_no_subscribers:
  assumes "matching organizationId event d = []"
  shows "triggerWebhooks p net now organizationId event data d = Inr (None, d)"
  using assms by (rule triggerWebhooks_none)


text \<open>
  C4. For every subscription that a dispatch delivers to, the row afterwards has failure
  counter 0 if the attempt succeeded and the old counter plus 1 if it failed, the
  last-delivery time is set in both cases, and a success leaves the active flag as it
  was.
\<close>

theorem dispatch_updates_failure_counter:
  assumes "distinct (map wh_id (webhooks d))" and "w \<in> set (matching organizationId event d)"
  shows "\<exists>outs d' r'.
     triggerWebhooks p net now organizationId event data d = Inr (Some outs, d') \<and>
     webhook_findUnique (wh_id w) d' = Some r' \<and>
     wh_failureCount r' =
       (if attemptSucceeded
             (sendRequest p net now event (webhookPayload p now organizationId event data) w)
        then 0 else wh_failureCount w + 1) \<and>
     wh_lastDeliveryAt r' = Some (at_updatedAt
        (sendRequest p net now event (webhookPayload p now organizationId event data) w)) \<and>
     (attemptSucceeded
        (sendRequest p net now event (webhookPayload p now organizationId event data) w) \<longrightarrow>
      wh_isActive r' = wh_isActive w)"
proof -
  from assms(2) have ne: "matching organizationId event d \<noteq> []" by auto
  from triggerWebhooks_effect[OF ne, of p net now data] assms obtain outs d' where
    "triggerWebhooks p net now organizationId event data d = Inr (Some outs, d')"
    "webhook_findUnique (wh_id w) d' = Some (afterAttempt
        (sendRequest p net now event (webhookPayload p now organizationId event data) w) w)"
    by blast
  then show ?thesis
    by (intro exI[of _ outs] exI[of _ d'] exI[of _ "afterAttempt
        (sendRequest p net now event (webhookPayload p now organizationId event data) w) w"])
       (simp add: afterAttempt_def)
qed







text \<open>The example store and network.\<close>

lemma exampleStore_matching:
  "matching ''org1'' ''case.created'' exampleStore =
     [exampleWebhook ''A'' True 3, exampleWebhook ''B'' True 3, exampleWebhook ''C'' True 9]"
  by (simp add: matching_def exampleStore_def exampleWebhook_def)

lemma exampleStore_distinct: "distinct (map wh_id (webhooks exampleStore))"
  by (simp add: exampleStore_def exampleWebhook_def)

lemma exampleNetwork_succeeded:
  "attemptSucceeded (sendRequest p exampleNetwork now event payload (exampleWebhook i a n)) =
     (i = ''A'')"
  by (simp add: attemptSucceeded_def sendRequest_def exampleNetwork_def exampleWebhook_def)

lemma exampleWebhook_fields:
  "wh_id (exampleWebhook i a n) = i"
  "wh_isActive (exampleWebhook i a n) = a"
  "wh_failureCount (exampleWebhook i a n) = n"
  by (simp_all add: exampleWebhook_def)

lemma exampleNetwork_updatedAt:
  "at_updatedAt (sendRequest p exampleNetwork now event payload w) = 140"
  by (simp add: sendRequest_def exampleNetwork_def)

theorem triggerWebhooks_no_subscribers_witness:
  "matching ''org1'' ''form.created'' exampleStore = [] \<and>
   triggerWebhooks examplePlatform exampleNetwork 50 ''org1'' ''form.created'' JNull exampleStore =
     Inr (None, exampleStore) \<and>
   webhookDeliveries exampleStore = []"
proof -
  have m: "matching ''org1'' ''form.created'' exampleStore = []"
    by (simp add: matching_def exampleStore_def exampleWebhook_def)
  from triggerWebhooks_no_subscribers[OF m] m show ?thesis
    by (simp add: exampleStore_def)
qed

text \<open>
  C5 as stated has an empty outcome list as the result; with no subscriber for the event
  the result is not an empty list.
\<close>

theorem triggerWebhooks_empty_list_counterexample:
  "matching ''org1'' ''form.created'' exampleStore = [] \<and>
   triggerWebhooks examplePlatform exampleNetwork 50 ''org1'' ''form.created'' JNull exampleStore
     \<noteq> Inr (Some [], exampleStore)"
  by (simp add: triggerWebhooks_def matching_def exampleStore_def exampleWebhook_def)



theorem dispatch_updates_failure_counter_witness:
  "distinct (map wh_id (webhooks exampleStore)) \<and>
   exampleWebhook ''A'' True 3 \<in> set (matching ''org1'' ''case.created'' exampleStore) \<and>
   exampleWebhook ''B'' True 3 \<in> set (matching ''org1'' ''case.created'' exampleStore) \<and>
   (\<exists>outs d' rA rB.
      triggerWebhooks examplePlatform exampleNetwork 50 ''org1'' ''case.created'' JNull exampleStore =
        Inr (Some outs, d') \<and>
      webhook_findUnique ''A'' d' = Some rA \<and>
      wh_failureCount rA = 0 \<and> wh_lastDeliveryAt rA = Some 140 \<and> wh_isActive rA \<and>
      webhook_findUnique ''B'' d' = Some rB \<and>
      wh_failureCount rB = 4 \<and> wh_lastDeliveryAt rB = Some 140)"
proof -
  note dist = exampleStore_distinct
  have a: "exampleWebhook ''A'' True 3 \<in> set (matching ''org1'' ''case.created'' exampleStore)"
    and b: "exampleWebhook ''B'' True 3 \<in> set (matching ''org1'' ''case.created'' exampleStore)"
    by (simp_all add: exampleStore_matching)
  from dispatch_updates_failure_counter[OF dist a, of examplePlatform exampleNetwork 50 JNull]
  obtain outs d' rA where
    T: "triggerWebhooks examplePlatform exampleNetwork 50 ''org1'' ''case.created'' JNull exampleStore =
        Inr (Some outs, d')" and
    A: "webhook_findUnique ''A'' d' = Some rA \<and>
      wh_failureCount rA = 0 \<and> wh_lastDeliveryAt rA = Some 140 \<and> wh_isActive rA"
    by (auto simp: exampleNetwork_succeeded exampleNetwork_updatedAt exampleWebhook_fields)
  from dispatch_updates_failure_counter[OF dist b, of examplePlatform exampleNetwork 50 JNull] T
  obtain rB where
    B: "webhook_findUnique ''B'' d' = Some rB \<and>
      wh_failureCount rB = 4 \<and> wh_lastDeliveryAt rB = Some 140"
    by (auto simp: exampleNetwork_succeeded exampleNetwork_updatedAt exampleWebhook_fields)
  from T A B have "\<exists>outs d' rA rB.
      triggerWebhooks examplePlatform exampleNetwork 50 ''org1'' ''case.created'' JNull exampleStore =
        Inr (Some outs, d') \<and>
      webhook_findUnique ''A'' d' = Some rA \<and>
      wh_failureCount rA = 0 \<and> wh_lastDeliveryAt rA = Some 140 \<and> wh_isActive rA \<and>
      webhook_findUnique ''B'' d' = Some rB \<and>
      wh_failureCount rB = 4 \<and> wh_lastDeliveryAt rB = Some 140"
    by (intro exI[of _ outs] exI[of _ d'] exI[of _ rA] exI[of _ rB]) simp
  with dist a b show ?thesis by (intro conjI)
qed



end
